theory Spec2Isabelle
  imports Main "HOL-Library.AList" "HOL-Library.Sublist" "HOL-Library.Multiset"
begin

section \<open>JavaScript values the cache service works with\<close>

text \<open>
  The service under verification is the class \<open>RedisCacheService\<close> of
  \<^verbatim>\<open>apps/api/src/app/redis-cache/redis-cache.service.ts\<close>. An optional argument of a
  TypeScript method is absent (\<open>undefined\<close>), \<open>null\<close>, or a value; the operators
  \<^verbatim>\<open>??\<close> and \<^verbatim>\<open>?.\<close> treat the first two alike.
\<close>

datatype 'a nullish = Undefined | Null | Val 'a

text \<open>\<^verbatim>\<open>a ?? b\<close>: the right operand replaces only \<open>undefined\<close> and \<open>null\<close>.\<close>

fun coalesce :: "'a nullish \<Rightarrow> 'a \<Rightarrow> 'a" where
  "coalesce Undefined d = d"
| "coalesce Null d = d"
| "coalesce (Val a) d = a"

text \<open>Truthiness of an optional string: \<open>undefined\<close>, \<open>null\<close> and \<^verbatim>\<open>""\<close> are falsy.\<close>

fun truthy :: "string nullish \<Rightarrow> bool" where
  "truthy Undefined = False"
| "truthy Null = False"
| "truthy (Val p) = (p \<noteq> [])"

text \<open>\<^verbatim>\<open>key.startsWith(p)\<close> on two strings.\<close>

definition startsWith :: "string \<Rightarrow> string \<Rightarrow> bool" where
  "startsWith key p = (take (length p) key = p)"

text \<open>
  A thrown value. The service only ever reads its \<open>message\<close> (for the log).
\<close>

datatype error = Error (message: string)

section \<open>Key derivation\<close>

text \<open>
  \<^verbatim>\<open>JSON.stringify\<close> and \<^verbatim>\<open>createHash('sha256').update(_).digest('hex')\<close> belong to
  the JavaScript runtime, and the interface \<open>Filter\<close> is declared outside the file; the
  key derivation takes the two functions as parameters and is polymorphic in the type of
  a filter.
\<close>

record 'f runtime =
  JSON_stringify :: "'f list \<Rightarrow> string"
  sha256_hex :: "string \<Rightarrow> string"

text \<open>
  \<^verbatim>\<open>filters?.length > 0\<close>: false when \<open>filters\<close> is \<open>undefined\<close> or \<open>null\<close>
  (\<^verbatim>\<open>undefined > 0\<close> is false), and when the list is empty.
\<close>

fun nonempty_filters :: "'f list nullish \<Rightarrow> bool" where
  "nonempty_filters Undefined = False"
| "nonempty_filters Null = False"
| "nonempty_filters (Val fs) = (length fs > 0)"

fun filters_of :: "'f list nullish \<Rightarrow> 'f list" where
  "filters_of (Val fs) = fs"
| "filters_of _ = []"

definition getPortfolioSnapshotKey :: "'f runtime \<Rightarrow> 'f list nullish \<Rightarrow> string \<Rightarrow> string" where
  "getPortfolioSnapshotKey rt filters userId =
     (let portfolioSnapshotKey = ''portfolio-snapshot-'' @ userId in
      if nonempty_filters filters then
        (let filtersHash = sha256_hex rt (JSON_stringify rt (filters_of filters))
         in portfolioSnapshotKey @ ''-'' @ filtersHash)
      else portfolioSnapshotKey)"

text \<open>
  Modelled from the spec: \<open>getAssetProfileIdentifier\<close> is imported from
  \<^verbatim>\<open>@ghostfolio/common/helper\<close>, which is not among the sources. The specification gives
  the quote key as \<^verbatim>\<open>quote-{dataSource}:{symbol}\<close>, so the identifier of an asset profile
  is its data source, a colon, and its symbol.
\<close>

definition getAssetProfileIdentifier :: "string \<Rightarrow> string \<Rightarrow> string" where
  "getAssetProfileIdentifier dataSource symbol = dataSource @ '':'' @ symbol"

definition getQuoteKey :: "string \<Rightarrow> string \<Rightarrow> string" where
  "getQuoteKey dataSource symbol = ''quote-'' @ getAssetProfileIdentifier dataSource symbol"

section \<open>Promises and the store client\<close>

text \<open>
  Every operation of the store client returns a promise. A promise either fulfils with a
  value or rejects with an error, some number of milliseconds after the call, or it never
  settles (a stalled connection). The effect of an operation on the store is taken at the
  moment of the call.
\<close>

datatype 'a promise = Fulfilled nat 'a | Rejected nat error | Pending

text \<open>
  The asynchronous iterator of the client yields \<open>[key, value]\<close> pairs and may throw in
  the middle of the enumeration; the end of the list is the normal end of the iteration.
\<close>

datatype iter_step = Yield string string | Throw error

text \<open>
  The \<open>Keyv\<close> client is a library object: it is a parameter of the service, given by the
  operations the service calls on it, over a store state of any type \<open>'s\<close>.
\<close>

record 's keyv =
  kv_get :: "string \<Rightarrow> 's \<Rightarrow> string option promise \<times> 's"
  kv_set :: "string \<Rightarrow> string \<Rightarrow> int \<Rightarrow> 's \<Rightarrow> bool promise \<times> 's"
  kv_delete :: "string \<Rightarrow> 's \<Rightarrow> bool promise \<times> 's"
  kv_deleteMany :: "string list \<Rightarrow> 's \<Rightarrow> bool promise \<times> 's"
  kv_clear :: "'s \<Rightarrow> unit promise \<times> 's"
  kv_iterator :: "'s \<Rightarrow> iter_step list \<times> 's"

text \<open>\<^verbatim>\<open>configurationService.get('CACHE_TTL')\<close>: the one configured value the service reads.\<close>

record config =
  CACHE_TTL :: int

record 's RedisCacheService =
  client :: "'s keyv"
  configurationService :: config

section \<open>The service methods\<close>

definition get :: "'s RedisCacheService \<Rightarrow> string \<Rightarrow> 's \<Rightarrow> string option promise \<times> 's" where
  "get svc key s = kv_get (client svc) key s"

text \<open>\<^verbatim>\<open>(prefix && key.startsWith(prefix)) || !prefix\<close>\<close>

fun key_selected :: "string nullish \<Rightarrow> string \<Rightarrow> bool" where
  "key_selected (Val p) key = ((truthy (Val p) \<and> startsWith key p) \<or> \<not> truthy (Val p))"
| "key_selected pfx key = (\<not> truthy pfx)"

text \<open>
  The \<^verbatim>\<open>for await\<close> loop of \<open>getKeys\<close>: it pushes the selected keys and stops at the
  first throw, which it reports together with the keys pushed so far.
\<close>

fun for_await :: "string nullish \<Rightarrow> iter_step list \<Rightarrow> string list \<Rightarrow> error option \<times> string list" where
  "for_await pfx [] keys = (None, keys)"
| "for_await pfx (Throw e # rest) keys = (Some e, keys)"
| "for_await pfx (Yield key v # rest) keys =
     for_await pfx rest (if key_selected pfx key then keys @ [key] else keys)"

text \<open>\<^verbatim>\<open>try { for await ... } catch {}  return keys\<close>: the thrown error is dropped.\<close>

definition getKeys :: "'s RedisCacheService \<Rightarrow> string nullish \<Rightarrow> 's \<Rightarrow> string list \<times> 's" where
  "getKeys svc aPrefix s =
     (let keys = [];
          pfx = aPrefix;
          (steps, s') = kv_iterator (client svc) s
      in (snd (for_await pfx steps keys), s'))"

definition remove :: "'s RedisCacheService \<Rightarrow> string \<Rightarrow> 's \<Rightarrow> bool promise \<times> 's" where
  "remove svc key s = kv_delete (client svc) key s"

definition removePortfolioSnapshotsByUserId ::
    "'f runtime \<Rightarrow> 's RedisCacheService \<Rightarrow> string \<Rightarrow> 's \<Rightarrow> bool promise \<times> 's" where
  "removePortfolioSnapshotsByUserId rt svc userId s =
     (let (keys, s') = getKeys svc (Val (getPortfolioSnapshotKey rt Undefined userId)) s
      in kv_deleteMany (client svc) keys s')"

definition reset :: "'s RedisCacheService \<Rightarrow> 's \<Rightarrow> unit promise \<times> 's" where
  "reset svc s = kv_clear (client svc) s"

definition set_entry ::
    "'s RedisCacheService \<Rightarrow> string \<Rightarrow> string \<Rightarrow> int nullish \<Rightarrow> 's \<Rightarrow> bool promise \<times> 's" where
  "set_entry svc key v ttl s =
     kv_set (client svc) key v (coalesce ttl (CACHE_TTL (configurationService svc))) s"

subsection \<open>The health check\<close>

text \<open>\<^verbatim>\<open>Date.now().toString()\<close>: the decimal digits of the clock reading.\<close>

function toString :: "nat \<Rightarrow> string" where
  "toString n =
     (if n < 10 then [''0123456789'' ! n]
      else toString (n div 10) @ [''0123456789'' ! (n mod 10)])"
  by pat_completeness auto
termination
  by (relation "measure id") auto

text \<open>
  The asynchronous function raced against the timer: \<open>set\<close> with a ttl of
  \<^verbatim>\<open>ms('1 second')\<close>, then \<open>get\<close>, then the comparison. Settling times add up. The
  read is issued when the write has settled; a write that has not settled by the
  \<open>deadline\<close> leaves the probe pending when the race is decided, and the read it would
  issue later comes after the cleanup and is not part of what the call does to the store.
\<close>

definition probe ::
    "'s RedisCacheService \<Rightarrow> string \<Rightarrow> string \<Rightarrow> nat \<Rightarrow> 's \<Rightarrow> unit promise \<times> 's" where
  "probe svc testKey testValue deadline s =
     (case set_entry svc testKey testValue (Val 1000) s of
        (Fulfilled t1 ack, s1) \<Rightarrow>
          if t1 < deadline then
            (case get svc testKey s1 of
               (Fulfilled t2 result, s2) \<Rightarrow>
                 (if result \<noteq> Some testValue
                  then Rejected (t1 + t2) (Error ''Redis health check failed: value mismatch'')
                  else Fulfilled (t1 + t2) (), s2)
             | (Rejected t2 e, s2) \<Rightarrow> (Rejected (t1 + t2) e, s2)
             | (Pending, s2) \<Rightarrow> (Pending, s2))
          else (Pending, s1)
      | (Rejected t1 e, s1) \<Rightarrow> (Rejected t1 e, s1)
      | (Pending, s1) \<Rightarrow> (Pending, s1))"

text \<open>
  \<^verbatim>\<open>Promise.race([p, q])\<close> settles as the promise that settles first. When both settle
  in the same millisecond the second one, the timer, is taken: the probe wins only by
  settling strictly before the timer.
\<close>

fun race :: "'a promise \<Rightarrow> 'a promise \<Rightarrow> 'a promise" where
  "race Pending q = q"
| "race p Pending = p"
| "race (Fulfilled t x) (Fulfilled u y) = (if t < u then Fulfilled t x else Fulfilled u y)"
| "race (Fulfilled t x) (Rejected u e) = (if t < u then Fulfilled t x else Rejected u e)"
| "race (Rejected t e) (Fulfilled u y) = (if t < u then Rejected t e else Fulfilled u y)"
| "race (Rejected t e) (Rejected u e') = (if t < u then Rejected t e else Rejected u e')"

text \<open>
  \<^verbatim>\<open>try { await raced; return true } catch (error) { Logger.error(error?.message); return false }\<close>:
  the settling time, the value to return and the lines logged; \<open>None\<close> when the awaited
  promise never settles.
\<close>

fun try_catch :: "unit promise \<Rightarrow> (nat \<times> bool \<times> string list) option" where
  "try_catch (Fulfilled t u) = Some (t, True, [])"
| "try_catch (Rejected t e) = Some (t, False, [message e])"
| "try_catch Pending = None"

text \<open>
  \<^verbatim>\<open>finally { try { await this.remove(testKey) } catch {} }\<close>: the function returns the
  value chosen before, once the cleanup has settled either way; it does not return while
  the cleanup is pending.
\<close>

fun finally_block :: "nat \<Rightarrow> bool \<Rightarrow> bool promise \<Rightarrow> bool promise" where
  "finally_block t result (Fulfilled t3 ack) = Fulfilled (t + t3) result"
| "finally_block t result (Rejected t3 e) = Fulfilled (t + t3) result"
| "finally_block t result Pending = Pending"

text \<open>
  \<open>isHealthy\<close> returns the promise of the boolean, the lines it logged, and the store.
  \<open>now\<close> is the reading of \<^verbatim>\<open>Date.now()\<close>.
\<close>

definition isHealthy :: "'s RedisCacheService \<Rightarrow> nat \<Rightarrow> 's \<Rightarrow> bool promise \<times> string list \<times> 's" where
  "isHealthy svc now s =
     (let testKey = ''__health_check__'';
          testValue = toString now;
          (p, s1) = probe svc testKey testValue 2000 s;
          timer = Rejected 2000 (Error ''Redis health check failed: timeout'')
      in case try_catch (race p timer) of
           None \<Rightarrow> (Pending, [], s1)
         | Some (t, result, logged) \<Rightarrow>
             (let (cleanup, s2) = remove svc testKey s1
              in (finally_block t result cleanup, logged, s2)))"

section \<open>Observing the calls made on the client\<close>

text \<open>
  A client wrapped by \<open>traced\<close> behaves as the client it wraps and appends every call
  it receives, with its arguments, to a trace kept beside the store.
\<close>

datatype call =
    CallGet string
  | CallSet string string int
  | CallDelete string
  | CallDeleteMany "string list"
  | CallClear
  | CallIterator

definition traced :: "'s keyv \<Rightarrow> ('s \<times> call list) keyv" where
  "traced c =
     \<lparr> kv_get = (\<lambda>key (s, tr). (fst (kv_get c key s), snd (kv_get c key s), tr @ [CallGet key])),
       kv_set = (\<lambda>key v ttl (s, tr).
                  (fst (kv_set c key v ttl s), snd (kv_set c key v ttl s), tr @ [CallSet key v ttl])),
       kv_delete = (\<lambda>key (s, tr).
                  (fst (kv_delete c key s), snd (kv_delete c key s), tr @ [CallDelete key])),
       kv_deleteMany = (\<lambda>keys (s, tr).
                  (fst (kv_deleteMany c keys s), snd (kv_deleteMany c keys s), tr @ [CallDeleteMany keys])),
       kv_clear = (\<lambda>(s, tr). (fst (kv_clear c s), snd (kv_clear c s), tr @ [CallClear])),
       kv_iterator = (\<lambda>(s, tr). (fst (kv_iterator c s), snd (kv_iterator c s), tr @ [CallIterator])) \<rparr>"

section \<open>A reference store\<close>

text \<open>
  Modelled from the spec: the external key-value store is not among the sources. The
  specification describes it by its entries, \<open>key\<close>, \<open>value\<close> and an optional
  \<open>expiresAt\<close>, with unique keys; a \<open>set\<close> on an existing key overwrites the value
  and resets the expiration; an entry whose expiration has elapsed is absent for \<open>get\<close>
  even if it has not been purged; \<open>delete\<close> of an absent key is no error; \<open>clear\<close>
  removes every entry; and the enumeration yields the keys present. The store below keeps
  the entries in insertion order and a clock in milliseconds; an entry written with a
  ttl expires that many milliseconds after the write; its operations answer at once and
  never fail.
\<close>

type_synonym CacheEntry = "string \<times> string \<times> int option"

record store =
  entries :: "CacheEntry list"
  clock :: int

fun elapsed :: "store \<Rightarrow> int option \<Rightarrow> bool" where
  "elapsed s None = False"
| "elapsed s (Some expiresAt) = (expiresAt \<le> clock s)"

definition lookup :: "store \<Rightarrow> string \<Rightarrow> string option" where
  "lookup s key =
     (case map_of (entries s) key of
        None \<Rightarrow> None
      | Some (v, expiresAt) \<Rightarrow> if elapsed s expiresAt then None else Some v)"

definition store_client :: "store keyv" where
  "store_client =
     \<lparr> kv_get = (\<lambda>key s. (Fulfilled 0 (lookup s key), s)),
       kv_set = (\<lambda>key v ttl s.
                  (Fulfilled 0 True,
                   s\<lparr>entries := AList.update key (v, Some (clock s + ttl)) (entries s)\<rparr>)),
       kv_delete = (\<lambda>key s. (Fulfilled 0 True, s\<lparr>entries := AList.delete key (entries s)\<rparr>)),
       kv_deleteMany = (\<lambda>keys s.
                  (Fulfilled 0 True, s\<lparr>entries := filter (\<lambda>e. fst e \<notin> set keys) (entries s)\<rparr>)),
       kv_clear = (\<lambda>s. (Fulfilled 0 (), s\<lparr>entries := []\<rparr>)),
       kv_iterator = (\<lambda>s.
                  (map (\<lambda>e. Yield (fst e) (fst (snd e)))
                     (filter (\<lambda>e. \<not> elapsed s (snd (snd e))) (entries s)), s)) \<rparr>"

text \<open>The keys of the reference store that have not expired, in the order it enumerates them.\<close>

definition live_keys :: "store \<Rightarrow> string list" where
  "live_keys s = map fst (filter (\<lambda>e. \<not> elapsed s (snd (snd e))) (entries s))"

text \<open>The service over the reference store, with a configured default ttl.\<close>

definition store_service :: "int \<Rightarrow> store RedisCacheService" where
  "store_service ttl = \<lparr> client = store_client, configurationService = \<lparr> CACHE_TTL = ttl \<rparr> \<rparr>"

text \<open>
  A client that has lost its connection: no operation reaches the store, no promise
  settles, and the enumeration throws at once.
\<close>

definition stalled_client :: "'s keyv" where
  "stalled_client =
     \<lparr> kv_get = (\<lambda>key s. (Pending, s)),
       kv_set = (\<lambda>key v ttl s. (Pending, s)),
       kv_delete = (\<lambda>key s. (Pending, s)),
       kv_deleteMany = (\<lambda>keys s. (Pending, s)),
       kv_clear = (\<lambda>s. (Pending, s)),
       kv_iterator = (\<lambda>s. ([Throw (Error ''Connection is closed.'')], s)) \<rparr>"

subsection \<open>Sequences of calls on the service\<close>

text \<open>
  The calls a user of the service can make, and the passing of time between them. A call
  is run for its effect on the store.
\<close>

datatype op =
    Get string
  | GetKeys "string nullish"
  | Set string string "int nullish"
  | Remove string
  | RemovePortfolioSnapshotsByUserId string
  | Reset
  | IsHealthy nat
  | Wait nat

fun run_op :: "'f runtime \<Rightarrow> store RedisCacheService \<Rightarrow> op \<Rightarrow> store \<Rightarrow> store" where
  "run_op rt svc (Get key) s = snd (get svc key s)"
| "run_op rt svc (GetKeys pfx) s = snd (getKeys svc pfx s)"
| "run_op rt svc (Set key v ttl) s = snd (set_entry svc key v ttl s)"
| "run_op rt svc (Remove key) s = snd (remove svc key s)"
| "run_op rt svc (RemovePortfolioSnapshotsByUserId userId) s =
     snd (removePortfolioSnapshotsByUserId rt svc userId s)"
| "run_op rt svc Reset s = snd (reset svc s)"
| "run_op rt svc (IsHealthy now) s = snd (snd (isHealthy svc now s))"
| "run_op rt svc (Wait ms) s = s\<lparr>clock := clock s + int ms\<rparr>"

fun run_ops :: "'f runtime \<Rightarrow> store RedisCacheService \<Rightarrow> op list \<Rightarrow> store \<Rightarrow> store" where
  "run_ops rt svc [] s = s"
| "run_ops rt svc (x # xs) s = run_ops rt svc xs (run_op rt svc x s)"

text \<open>Whether a call deletes or overwrites the entry of \<open>key\<close>.\<close>

fun touches :: "'f runtime \<Rightarrow> string \<Rightarrow> op \<Rightarrow> bool" where
  "touches rt key (Set k v ttl) = (k = key)"
| "touches rt key (Remove k) = (k = key)"
| "touches rt key (RemovePortfolioSnapshotsByUserId userId) =
     startsWith key (getPortfolioSnapshotKey rt Undefined userId)"
| "touches rt key Reset = True"
| "touches rt key (IsHealthy now) = (key = ''__health_check__'')"
| "touches rt key x = False"

fun waited :: "op list \<Rightarrow> nat" where
  "waited [] = 0"
| "waited (Wait ms # xs) = ms + waited xs"
| "waited (x # xs) = waited xs"

text \<open>The keys an enumeration yields before it ends or throws.\<close>

fun yielded :: "iter_step list \<Rightarrow> string list" where
  "yielded [] = []"
| "yielded (Throw e # rest) = []"
| "yielded (Yield key v # rest) = key # yielded rest"


section \<open>Example clients and stores\<close>

text \<open>The reference store with an enumeration that throws after two entries.\<close>

definition failing_iterator :: "store keyv" where
  "failing_iterator = store_client\<lparr>kv_iterator := (\<lambda>s.
     ([Yield ''a1'' ''x'', Yield ''b'' ''y'', Throw (Error ''boom''), Yield ''a2'' ''z''], s))\<rparr>"

text \<open>
  A stand-in for the JavaScript runtime, for running the key derivation on concrete
  inputs: it serialises a list of strings by ending each with a comma, and its digest is
  the first 64 characters of the zero-padded input, each mapped to a hexadecimal digit.
  It is not SHA-256; it only has the shape of its output.
\<close>

definition hex_of :: "char \<Rightarrow> char" where
  "hex_of c = ''0123456789abcdef'' ! ((of_char c :: nat) mod 16)"

definition stub_runtime :: "string runtime" where
  "stub_runtime =
     \<lparr> JSON_stringify = (\<lambda>fs. concat (map (\<lambda>f. f @ '','') fs)),
       sha256_hex = (\<lambda>x. map hex_of (take 64 (x @ replicate 64 (CHR ''0'')))) \<rparr>"

text \<open>The store after writing three snapshot keys, of the users \<open>u1\<close> and \<open>u2\<close>.\<close>

definition three_snapshots :: store where
  "three_snapshots =
     run_ops stub_runtime (store_service 60000)
       [Set ''portfolio-snapshot-u1'' ''a'' Undefined,
        Set ''portfolio-snapshot-u1-abc'' ''b'' Undefined,
        Set ''portfolio-snapshot-u2'' ''c'' Undefined]
       \<lparr>entries = [], clock = 0\<rparr>"

text \<open>The store holding the plain and a filtered snapshot key of the user \<open>u10\<close>.\<close>

definition u10_snapshots :: store where
  "u10_snapshots =
     run_ops stub_runtime (store_service 60000)
       [Set (getPortfolioSnapshotKey stub_runtime Undefined ''u10'') ''a'' Undefined,
        Set (getPortfolioSnapshotKey stub_runtime (Val [''TAG'']) ''u10'') ''b'' Undefined]
       \<lparr>entries = [], clock = 0\<rparr>"

section \<open>Key derivation: quote keys\<close>

text \<open>
  Claim C4. For every data source and symbol, \<open>getQuoteKey\<close> returns exactly the string
  \<^verbatim>\<open>quote-{dataSource}:{symbol}\<close>; for \<open>YAHOO\<close> and \<open>AAPL\<close> it returns
  \<^verbatim>\<open>quote-YAHOO:AAPL\<close>; and two calls with identical inputs return identical output.
\<close>

theorem getQuoteKey_format:
  "getQuoteKey dataSource symbol = ''quote-'' @ dataSource @ '':'' @ symbol
   \<and> getQuoteKey ''YAHOO'' ''AAPL'' = ''quote-YAHOO:AAPL''
   \<and> (\<forall>d1 s1 d2 s2. (d1, s1) = (d2, s2) \<longrightarrow> getQuoteKey d1 s1 = getQuoteKey d2 s2)"
  by (simp add: getQuoteKey_def getAssetProfileIdentifier_def)

theorem getQuoteKey_format_witness:
  "getQuoteKey ''YAHOO'' ''AAPL'' = ''quote-'' @ ''YAHOO'' @ '':'' @ ''AAPL''
   \<and> getQuoteKey ''YAHOO'' ''AAPL'' = ''quote-YAHOO:AAPL''
   \<and> (''YAHOO'', ''AAPL'') = (''YAHOO'', ''AAPL'')
   \<and> getQuoteKey ''YAHOO'' ''AAPL'' = getQuoteKey ''YAHOO'' ''AAPL''"
  using getQuoteKey_format [of "''YAHOO''" "''AAPL''"] by simp

section \<open>Enumerating keys\<close>

lemma startsWith_prefix: "startsWith key p = prefix p key"
  by (metis startsWith_def prefix_def append_eq_conv_conj append_take_drop_id)

lemma key_selected_Val: "key_selected (Val p) key = startsWith key p"
  by (cases p) (simp_all add: startsWith_def)

lemma key_selected_Undefined: "filter (key_selected Undefined) keys = keys"
  by (induction keys) simp_all

lemma for_await_keys: "snd (for_await pfx steps acc) = acc @ filter (key_selected pfx) (yielded steps)"
  by (induction pfx steps acc rule: for_await.induct) simp_all

lemma for_await_error:
  "fst (for_await pfx (map (\<lambda>(k, v). Yield k v) kvs @ Throw e # rest) acc) = Some e"
  by (induction kvs arbitrary: acc) (simp_all add: case_prod_beta)

lemma yielded_until_throw:
  "yielded (map (\<lambda>(k, v). Yield k v) kvs @ Throw e # rest) = map fst kvs"
  by (induction kvs) (simp_all add: case_prod_beta)

lemma yielded_all: "yielded (map (\<lambda>e. Yield (f e) (g e)) xs) = map f xs"
  by (induction xs) simp_all

lemma getKeys_keys:
  "fst (getKeys svc pfx s) = filter (key_selected pfx) (yielded (fst (kv_iterator (client svc) s)))"
  by (simp add: getKeys_def for_await_keys case_prod_beta)

lemma getKeys_state: "snd (getKeys svc pfx s) = snd (kv_iterator (client svc) s)"
  by (simp add: getKeys_def case_prod_beta)

text \<open>
  Claim C3. For every prefix, every key in the list returned by \<open>getKeys\<close> starts with
  that prefix. If the enumeration of the store yields the entries \<open>kvs\<close> and then throws
  \<open>e\<close>, the loop ends with that error, and \<open>getKeys\<close> still returns a list: exactly
  the selected keys among those yielded before the throw (none of the later ones).
  Without a prefix every key yielded is returned.
\<close>

theorem getKeys_prefix_and_truncation:
  "(\<forall>key \<in> set (fst (getKeys svc (Val p) s)). startsWith key p)
   \<and> fst (getKeys svc Undefined s) = yielded (fst (kv_iterator (client svc) s))
   \<and> (fst (kv_iterator (client svc) s) = map (\<lambda>(k, v). Yield k v) kvs @ Throw e # rest \<longrightarrow>
        fst (for_await pfx (fst (kv_iterator (client svc) s)) []) = Some e
        \<and> fst (getKeys svc pfx s) = filter (key_selected pfx) (map fst kvs))"
  by (simp add: getKeys_keys key_selected_Val key_selected_Undefined for_await_error
        yielded_until_throw del: key_selected.simps)

theorem getKeys_prefix_and_truncation_witness:
  "fst (getKeys \<lparr>client = failing_iterator, configurationService = \<lparr>CACHE_TTL = 1\<rparr>\<rparr> (Val ''a'')
          \<lparr>entries = [], clock = 0\<rparr>) = [''a1'']
   \<and> startsWith ''a1'' ''a''
   \<and> fst (for_await (Val ''a'') [Yield ''a1'' ''x'', Yield ''b'' ''y'', Throw (Error ''boom''), Yield ''a2'' ''z''] [])
        = Some (Error ''boom'')"
  using getKeys_prefix_and_truncation
    [of "\<lparr>client = failing_iterator, configurationService = \<lparr>CACHE_TTL = 1\<rparr>\<rparr>" "''a''"
        "\<lparr>entries = [], clock = 0\<rparr>" "[(''a1'', ''x''), (''b'', ''y'')]" "Error ''boom''"
        "[Yield ''a2'' ''z'']" "Val ''a''"]
  by (simp add: failing_iterator_def startsWith_def)

section \<open>Writing an entry\<close>

lemma set_entry_traced:
  "set_entry \<lparr>client = traced c, configurationService = cfg\<rparr> key v ttl (s, tr) =
     (fst (kv_set c key v (coalesce ttl (CACHE_TTL cfg)) s),
      snd (kv_set c key v (coalesce ttl (CACHE_TTL cfg)) s),
      tr @ [CallSet key v (coalesce ttl (CACHE_TTL cfg))])"
  by (simp add: set_entry_def traced_def)

text \<open>
  Claim C7. \<open>set\<close> called without a ttl is the client's \<open>set\<close> with the configured
  \<open>CACHE_TTL\<close>, and \<open>set\<close> called with a ttl is the client's \<open>set\<close> with that ttl.
  On the reference store the entry written expires the configured default after the
  write in the first case, and the given ttl after the write in the second.
\<close>

theorem set_entry_default_ttl:
  "set_entry svc key v Undefined s = kv_set (client svc) key v (CACHE_TTL (configurationService svc)) s
   \<and> set_entry svc key v (Val ttl) s = kv_set (client svc) key v ttl s
   \<and> map_of (entries (snd (set_entry (store_service d) key v Undefined s))) key
       = Some (v, Some (clock s + d))
   \<and> map_of (entries (snd (set_entry (store_service d) key v (Val ttl) s))) key
       = Some (v, Some (clock s + ttl))"
  by (simp add: set_entry_def store_service_def store_client_def update_conv')

text \<open>
  Claim C10. The default is injected by \<^verbatim>\<open>??\<close>: the call the client receives carries
  the configured default when the ttl argument is \<open>undefined\<close> or \<open>null\<close>, and the
  argument itself for every number; an explicit ttl of 0 reaches the client as 0.
\<close>

theorem set_entry_nullish_coalescing:
  "snd (snd (set_entry \<lparr>client = traced c, configurationService = \<lparr>CACHE_TTL = d\<rparr>\<rparr> key v Undefined (s, tr)))
     = tr @ [CallSet key v d]
   \<and> snd (snd (set_entry \<lparr>client = traced c, configurationService = \<lparr>CACHE_TTL = d\<rparr>\<rparr> key v Null (s, tr)))
     = tr @ [CallSet key v d]
   \<and> snd (snd (set_entry \<lparr>client = traced c, configurationService = \<lparr>CACHE_TTL = d\<rparr>\<rparr> key v (Val ttl) (s, tr)))
     = tr @ [CallSet key v ttl]
   \<and> snd (snd (set_entry \<lparr>client = traced c, configurationService = \<lparr>CACHE_TTL = d\<rparr>\<rparr> key v (Val 0) (s, tr)))
     = tr @ [CallSet key v 0]"
  by (simp add: set_entry_traced)

section \<open>The reference store under the service\<close>

declare toString.simps [simp del]

lemma key_selected_Val_fun: "key_selected (Val p) = (\<lambda>key. startsWith key p)"
  by (rule ext) (rule key_selected_Val)

lemma store_getKeys:
  "getKeys (store_service d) pfx s = (filter (key_selected pfx) (live_keys s), s)"
  by (simp add: prod_eq_iff getKeys_keys getKeys_state store_service_def store_client_def
        yielded_all live_keys_def del: key_selected.simps)

lemma store_removePortfolioSnapshotsByUserId:
  "removePortfolioSnapshotsByUserId rt (store_service d) userId s =
     (Fulfilled 0 True,
      s\<lparr>entries := filter (\<lambda>e. fst e \<notin> set (filter (\<lambda>key. startsWith key (getPortfolioSnapshotKey rt Undefined userId)) (live_keys s)))
                     (entries s)\<rparr>)"
proof -
  have "getKeys (store_service d) (Val (getPortfolioSnapshotKey rt Undefined userId)) s =
          (filter (\<lambda>key. startsWith key (getPortfolioSnapshotKey rt Undefined userId)) (live_keys s), s)"
    by (simp only: store_getKeys key_selected_Val_fun)
  then show ?thesis
    unfolding removePortfolioSnapshotsByUserId_def
    by (simp only: Let_def prod.case) (simp only: store_service_def store_client_def
          RedisCacheService.simps keyv.simps)
qed

lemma live_keys_mem:
  assumes "map_of (entries s) key = Some (v, x)" "\<not> elapsed s x"
  shows "key \<in> set (live_keys s)"
proof -
  have "(key, v, x) \<in> set (entries s)" using assms(1) by (rule map_of_SomeD)
  then have "(key, v, x) \<in> set (filter (\<lambda>e. \<not> elapsed s (snd (snd e))) (entries s))"
    using assms(2) by simp
  then show ?thesis unfolding live_keys_def by force
qed

lemma lookup_None_if_not_live: "key \<notin> set (live_keys s) \<Longrightarrow> lookup s key = None"
  using live_keys_mem [of s key]
  by (auto simp: lookup_def split: option.splits)

lemma map_of_filter_notin:
  "map_of (filter (\<lambda>e. fst e \<notin> A) al) k = (if k \<in> A then None else map_of al k)"
  by (induction al) auto

lemma elapsed_entries_update [simp]: "elapsed (s\<lparr>entries := es\<rparr>) x = elapsed s x"
  by (cases x) simp_all

lemma lookup_deleteMany:
  "lookup (s\<lparr>entries := filter (\<lambda>e. fst e \<notin> A) (entries s)\<rparr>) key =
     (if key \<in> A then None else lookup s key)"
  by (simp add: lookup_def map_of_filter_notin split: option.splits)

lemma store_removePortfolioSnapshotsByUserId_lookup:
  "lookup (snd (removePortfolioSnapshotsByUserId rt (store_service d) userId s)) key =
     (if startsWith key (getPortfolioSnapshotKey rt Undefined userId) then None else lookup s key)"
proof -
  let ?p = "getPortfolioSnapshotKey rt Undefined userId"
  let ?keys = "filter (\<lambda>key. startsWith key ?p) (live_keys s)"
  have "lookup (snd (removePortfolioSnapshotsByUserId rt (store_service d) userId s)) key =
          (if key \<in> set ?keys then None else lookup s key)"
    by (simp only: store_removePortfolioSnapshotsByUserId snd_conv lookup_deleteMany)
  also have "\<dots> = (if startsWith key ?p then None else lookup s key)"
    using lookup_None_if_not_live [of key s] by auto
  finally show ?thesis .
qed

lemma store_isHealthy:
  "isHealthy (store_service d) now s =
     (Fulfilled 0 True, [],
      s\<lparr>entries := AList.delete ''__health_check__''
          (AList.update ''__health_check__'' (toString now, Some (clock s + 1000)) (entries s))\<rparr>)"
  by (simp add: isHealthy_def probe_def set_entry_def get_def remove_def store_service_def
        store_client_def lookup_def update_conv' Let_def)

lemma store_get: "get (store_service d) key s = (Fulfilled 0 (lookup s key), s)"
  by (simp add: get_def store_service_def store_client_def)

lemma store_set_entry:
  "set_entry (store_service d) key v ttl s =
     (Fulfilled 0 True, s\<lparr>entries := AList.update key (v, Some (clock s + coalesce ttl d)) (entries s)\<rparr>)"
  by (simp add: set_entry_def store_service_def store_client_def)

lemma store_remove:
  "remove (store_service d) key s = (Fulfilled 0 True, s\<lparr>entries := AList.delete key (entries s)\<rparr>)"
  by (simp add: remove_def store_service_def store_client_def)

lemma store_reset: "reset (store_service d) s = (Fulfilled 0 (), s\<lparr>entries := []\<rparr>)"
  by (simp add: reset_def store_service_def store_client_def)

section \<open>Bulk invalidation of a user's snapshots\<close>

lemma removePortfolioSnapshotsByUserId_traced:
  "removePortfolioSnapshotsByUserId rt \<lparr>client = traced c, configurationService = cfg\<rparr> userId (s, tr) =
     (fst (kv_deleteMany c
             (fst (getKeys \<lparr>client = c, configurationService = cfg\<rparr> (Val (getPortfolioSnapshotKey rt Undefined userId)) s))
             (snd (getKeys \<lparr>client = c, configurationService = cfg\<rparr> (Val (getPortfolioSnapshotKey rt Undefined userId)) s))),
      snd (kv_deleteMany c
             (fst (getKeys \<lparr>client = c, configurationService = cfg\<rparr> (Val (getPortfolioSnapshotKey rt Undefined userId)) s))
             (snd (getKeys \<lparr>client = c, configurationService = cfg\<rparr> (Val (getPortfolioSnapshotKey rt Undefined userId)) s))),
      tr @ [CallIterator,
            CallDeleteMany
              (fst (getKeys \<lparr>client = c, configurationService = cfg\<rparr> (Val (getPortfolioSnapshotKey rt Undefined userId)) s))])"
  by (simp add: removePortfolioSnapshotsByUserId_def getKeys_def traced_def case_prod_beta)

lemma getPortfolioSnapshotKey_base:
  "getPortfolioSnapshotKey rt Undefined userId = ''portfolio-snapshot-'' @ userId"
  "getPortfolioSnapshotKey rt Null userId = ''portfolio-snapshot-'' @ userId"
  "getPortfolioSnapshotKey rt (Val []) userId = ''portfolio-snapshot-'' @ userId"
  by (simp_all add: getPortfolioSnapshotKey_def)

text \<open>
  Claim C5. \<open>removePortfolioSnapshotsByUserId\<close> makes two calls on the client, the
  enumeration and then one \<open>deleteMany\<close>, whose argument is the list \<open>getKeys\<close>
  returns for the prefix \<^verbatim>\<open>portfolio-snapshot-{userId}\<close>. On the reference store, every
  key that starts with that prefix is absent afterwards and every other key reads as
  before.
\<close>

theorem removePortfolioSnapshotsByUserId_effect:
  "snd (snd (removePortfolioSnapshotsByUserId rt \<lparr>client = traced c, configurationService = cfg\<rparr> userId (s, tr)))
     = tr @ [CallIterator,
             CallDeleteMany (fst (getKeys \<lparr>client = c, configurationService = cfg\<rparr>
                                    (Val (''portfolio-snapshot-'' @ userId)) s))]
   \<and> lookup (snd (removePortfolioSnapshotsByUserId rt (store_service d) userId s0)) key
       = (if startsWith key (''portfolio-snapshot-'' @ userId) then None else lookup s0 key)"
  by (simp only: removePortfolioSnapshotsByUserId_traced snd_conv
        store_removePortfolioSnapshotsByUserId_lookup getPortfolioSnapshotKey_base simp_thms)

lemma three_snapshots_entries:
  "three_snapshots =
     \<lparr>entries = [(''portfolio-snapshot-u1'', ''a'', Some 60000),
                 (''portfolio-snapshot-u1-abc'', ''b'', Some 60000),
                 (''portfolio-snapshot-u2'', ''c'', Some 60000)], clock = 0\<rparr>"
  by (simp add: three_snapshots_def set_entry_def store_service_def store_client_def)

theorem removePortfolioSnapshotsByUserId_effect_witness:
  "lookup three_snapshots ''portfolio-snapshot-u1'' = Some ''a''
   \<and> lookup three_snapshots ''portfolio-snapshot-u1-abc'' = Some ''b''
   \<and> lookup three_snapshots ''portfolio-snapshot-u2'' = Some ''c''
   \<and> lookup (snd (removePortfolioSnapshotsByUserId stub_runtime (store_service 60000) ''u1'' three_snapshots))
        ''portfolio-snapshot-u1'' = None
   \<and> lookup (snd (removePortfolioSnapshotsByUserId stub_runtime (store_service 60000) ''u1'' three_snapshots))
        ''portfolio-snapshot-u1-abc'' = None
   \<and> lookup (snd (removePortfolioSnapshotsByUserId stub_runtime (store_service 60000) ''u1'' three_snapshots))
        ''portfolio-snapshot-u2'' = Some ''c''"
proof -
  have before:
    "lookup three_snapshots ''portfolio-snapshot-u1'' = Some ''a''"
    "lookup three_snapshots ''portfolio-snapshot-u1-abc'' = Some ''b''"
    "lookup three_snapshots ''portfolio-snapshot-u2'' = Some ''c''"
    by (simp_all add: three_snapshots_entries lookup_def)
  have sw:
    "startsWith ''portfolio-snapshot-u1'' (''portfolio-snapshot-'' @ ''u1'')"
    "startsWith ''portfolio-snapshot-u1-abc'' (''portfolio-snapshot-'' @ ''u1'')"
    "\<not> startsWith ''portfolio-snapshot-u2'' (''portfolio-snapshot-'' @ ''u1'')"
    by (simp_all add: startsWith_def)
  show ?thesis
    using before sw
      removePortfolioSnapshotsByUserId_effect [where rt = stub_runtime and d = 60000
        and userId = "''u1''" and ?s0.0 = three_snapshots and key = "''portfolio-snapshot-u1''", THEN conjunct2]
      removePortfolioSnapshotsByUserId_effect [where rt = stub_runtime and d = 60000
        and userId = "''u1''" and ?s0.0 = three_snapshots and key = "''portfolio-snapshot-u1-abc''", THEN conjunct2]
      removePortfolioSnapshotsByUserId_effect [where rt = stub_runtime and d = 60000
        and userId = "''u1''" and ?s0.0 = three_snapshots and key = "''portfolio-snapshot-u2''", THEN conjunct2]
    by simp
qed

lemma getPortfolioSnapshotKey_startsWith_base:
  "startsWith (getPortfolioSnapshotKey rt filters userId) (''portfolio-snapshot-'' @ userId)"
  by (simp add: getPortfolioSnapshotKey_def startsWith_def Let_def)

lemma startsWith_trans: "startsWith a b \<Longrightarrow> startsWith b c \<Longrightarrow> startsWith a c"
  by (auto simp: startsWith_prefix)

text \<open>
  Claim C9. When \<open>u\<close> is a proper prefix of another user id \<open>u'\<close>, every snapshot
  key of \<open>u'\<close>, plain or filtered, starts with the base key of \<open>u\<close>. So
  \<open>removePortfolioSnapshotsByUserId\<close> for \<open>u\<close> leaves it absent from the reference
  store, and with any client, if the enumeration yields that key then it is in the list
  passed to \<open>deleteMany\<close>.
\<close>

theorem removePortfolioSnapshotsByUserId_prefix_users:
  "strict_prefix u u' \<Longrightarrow>
     startsWith (getPortfolioSnapshotKey rt filters u') (getPortfolioSnapshotKey rt Undefined u)
     \<and> lookup (snd (removePortfolioSnapshotsByUserId rt (store_service d) u s))
          (getPortfolioSnapshotKey rt filters u') = None
     \<and> (getPortfolioSnapshotKey rt filters u' \<in> set (yielded (fst (kv_iterator (client svc) s'))) \<longrightarrow>
          getPortfolioSnapshotKey rt filters u'
            \<in> set (fst (getKeys svc (Val (getPortfolioSnapshotKey rt Undefined u)) s')))"
proof -
  assume "strict_prefix u u'"
  then have "prefix (''portfolio-snapshot-'' @ u) (''portfolio-snapshot-'' @ u')"
    by (simp add: strict_prefix_def del: append.simps)
  then have "startsWith (''portfolio-snapshot-'' @ u') (getPortfolioSnapshotKey rt Undefined u)"
    by (simp only: startsWith_prefix getPortfolioSnapshotKey_base)
  then have sw: "startsWith (getPortfolioSnapshotKey rt filters u') (getPortfolioSnapshotKey rt Undefined u)"
    using getPortfolioSnapshotKey_startsWith_base [of rt filters u'] startsWith_trans by blast
  then show ?thesis
    by (simp add: store_removePortfolioSnapshotsByUserId_lookup getKeys_keys key_selected_Val
          del: key_selected.simps)
qed

theorem removePortfolioSnapshotsByUserId_prefix_users_witness:
  "strict_prefix ''u1'' ''u10''
   \<and> getPortfolioSnapshotKey stub_runtime Undefined ''u10'' = ''portfolio-snapshot-u10''
   \<and> lookup u10_snapshots ''portfolio-snapshot-u10'' = Some ''a''
   \<and> lookup u10_snapshots (getPortfolioSnapshotKey stub_runtime (Val [''TAG'']) ''u10'') = Some ''b''
   \<and> lookup (snd (removePortfolioSnapshotsByUserId stub_runtime (store_service 60000) ''u1'' u10_snapshots))
        ''portfolio-snapshot-u10'' = None
   \<and> lookup (snd (removePortfolioSnapshotsByUserId stub_runtime (store_service 60000) ''u1'' u10_snapshots))
        (getPortfolioSnapshotKey stub_runtime (Val [''TAG'']) ''u10'') = None"
proof -
  have sp: "strict_prefix ''u1'' ''u10''" by (simp add: strict_prefix_def)
  have base: "getPortfolioSnapshotKey stub_runtime Undefined ''u10'' = ''portfolio-snapshot-u10''"
    by (simp add: getPortfolioSnapshotKey_def)
  have before: "lookup u10_snapshots ''portfolio-snapshot-u10'' = Some ''a''"
    "lookup u10_snapshots (getPortfolioSnapshotKey stub_runtime (Val [''TAG'']) ''u10'') = Some ''b''"
    by (simp_all add: u10_snapshots_def set_entry_def store_service_def store_client_def lookup_def
          getPortfolioSnapshotKey_def update_conv')
  show ?thesis
    using sp base before
      removePortfolioSnapshotsByUserId_prefix_users [OF sp, of stub_runtime Undefined 60000 u10_snapshots
        "store_service 60000" u10_snapshots]
      removePortfolioSnapshotsByUserId_prefix_users [OF sp, of stub_runtime "Val [''TAG'']" 60000 u10_snapshots
        "store_service 60000" u10_snapshots]
    by simp
qed

section \<open>Reading back what was written\<close>

lemma run_op_untouched:
  assumes "\<not> touches rt key x"
  shows "map_of (entries (run_op rt (store_service d) x s)) key = map_of (entries s) key"
proof (cases x)
  case (RemovePortfolioSnapshotsByUserId userId)
  let ?A = "set (filter (\<lambda>k. startsWith k (getPortfolioSnapshotKey rt Undefined userId)) (live_keys s))"
  have "entries (snd (removePortfolioSnapshotsByUserId rt (store_service d) userId s)) =
          filter (\<lambda>e. fst e \<notin> ?A) (entries s)"
    by (simp add: store_removePortfolioSnapshotsByUserId)
  then have "map_of (entries (snd (removePortfolioSnapshotsByUserId rt (store_service d) userId s))) key =
          (if key \<in> ?A then None else map_of (entries s) key)"
    by (simp only: map_of_filter_notin)
  moreover have "key \<notin> ?A"
    using assms RemovePortfolioSnapshotsByUserId by simp
  ultimately show ?thesis using RemovePortfolioSnapshotsByUserId by auto
next
  case (IsHealthy now)
  then show ?thesis using assms
    by (simp add: store_isHealthy update_conv' delete_conv')
qed (use assms in \<open>simp_all add: store_get store_getKeys store_set_entry store_remove
       update_conv' delete_conv'\<close>)

lemma run_op_clock: "clock (run_op rt (store_service d) x s) = clock s + int (waited [x])"
  by (cases x)
     (simp_all add: store_get store_getKeys store_set_entry store_remove store_reset
        store_removePortfolioSnapshotsByUserId store_isHealthy)

lemma waited_Cons: "waited (x # xs) = waited [x] + waited xs"
  by (cases x) simp_all

lemma run_ops_untouched:
  "\<forall>x \<in> set ops. \<not> touches rt key x \<Longrightarrow>
     map_of (entries (run_ops rt (store_service d) ops s)) key = map_of (entries s) key
     \<and> clock (run_ops rt (store_service d) ops s) = clock s + int (waited ops)"
proof (induction ops arbitrary: s)
  case Nil
  then show ?case by simp
next
  case (Cons x xs)
  have "waited (x # xs) = waited [x] + waited xs" by (rule waited_Cons)
  then show ?case
    using Cons.IH [of "run_op rt (store_service d) x s"] Cons.prems
    by (simp add: run_op_untouched run_op_clock del: waited.simps)
qed

text \<open>
  Claim C8. On the reference store, after \<open>set\<close> of \<open>key\<close> to \<open>v\<close>, \<open>get\<close> of
  \<open>key\<close> returns \<open>v\<close>, at once and after any sequence of calls that neither delete
  nor overwrite \<open>key\<close>, as long as less time than the ttl in force has passed. Once the
  ttl has elapsed, or after \<open>remove\<close> of \<open>key\<close>, \<open>reset\<close>, or a bulk invalidation
  whose prefix \<open>key\<close> starts with, \<open>get\<close> returns nothing.
\<close>

theorem set_entry_get_roundtrip:
  "((\<forall>x \<in> set ops. \<not> touches rt key x) \<and> int (waited ops) < coalesce ttl d \<longrightarrow>
      fst (get (store_service d) key
             (run_ops rt (store_service d) ops (snd (set_entry (store_service d) key v ttl s))))
        = Fulfilled 0 (Some v))
   \<and> ((\<forall>x \<in> set ops. \<not> touches rt key x) \<and> 0 < coalesce ttl d \<and> coalesce ttl d \<le> int (waited ops) \<longrightarrow>
      fst (get (store_service d) key
             (run_ops rt (store_service d) ops (snd (set_entry (store_service d) key v ttl s))))
        = Fulfilled 0 None)
   \<and> fst (get (store_service d) key (snd (remove (store_service d) key s'))) = Fulfilled 0 None
   \<and> fst (get (store_service d) key (snd (reset (store_service d) s'))) = Fulfilled 0 None
   \<and> (startsWith key (getPortfolioSnapshotKey rt Undefined userId) \<longrightarrow>
        fst (get (store_service d) key
               (snd (removePortfolioSnapshotsByUserId rt (store_service d) userId s')))
          = Fulfilled 0 None)"
proof -
  let ?s1 = "snd (set_entry (store_service d) key v ttl s)"
  have written: "map_of (entries ?s1) key = Some (v, Some (clock s + coalesce ttl d))"
    "clock ?s1 = clock s"
    by (simp_all add: store_set_entry update_conv')
  have kept: "lookup (run_ops rt (store_service d) ops ?s1) key =
                (if int (waited ops) < coalesce ttl d then Some v else None)"
    if "\<forall>x \<in> set ops. \<not> touches rt key x"
    using run_ops_untouched [OF that, of d ?s1] written
    by (simp add: lookup_def)
  have removed: "lookup (snd (remove (store_service d) key s')) key = None"
    "lookup (snd (reset (store_service d) s')) key = None"
    by (simp_all add: store_remove store_reset lookup_def delete_conv')
  show ?thesis
    using kept removed
    by (simp add: store_get store_removePortfolioSnapshotsByUserId_lookup)
qed

theorem set_entry_get_roundtrip_witness:
  "fst (get (store_service 60000) ''k''
         (run_ops stub_runtime (store_service 60000)
            [Set ''other'' ''x'' (Val 5), Wait 59999, Remove ''other'', IsHealthy 1700000000000,
             RemovePortfolioSnapshotsByUserId ''u1'', Get ''k'']
            (snd (set_entry (store_service 60000) ''k'' ''v'' Undefined \<lparr>entries = [], clock = 0\<rparr>))))
     = Fulfilled 0 (Some ''v'')
   \<and> fst (get (store_service 60000) ''k''
         (run_ops stub_runtime (store_service 60000) [Wait 60000]
            (snd (set_entry (store_service 60000) ''k'' ''v'' Undefined \<lparr>entries = [], clock = 0\<rparr>))))
     = Fulfilled 0 None
   \<and> fst (get (store_service 60000) ''portfolio-snapshot-u1''
         (snd (removePortfolioSnapshotsByUserId stub_runtime (store_service 60000) ''u1''
                 three_snapshots)))
     = Fulfilled 0 None"
proof -
  have sw: "startsWith ''portfolio-snapshot-u1'' (getPortfolioSnapshotKey stub_runtime Undefined ''u1'')"
    "\<not> startsWith ''k'' (getPortfolioSnapshotKey stub_runtime Undefined ''u1'')"
    by (simp_all add: getPortfolioSnapshotKey_def startsWith_def)
  show ?thesis
    using sw
      set_entry_get_roundtrip [where rt = stub_runtime and d = 60000 and key = "''k''" and v = "''v''"
        and ttl = Undefined and s = "\<lparr>entries = [], clock = 0\<rparr>"
        and ops = "[Set ''other'' ''x'' (Val 5), Wait 59999, Remove ''other'', IsHealthy 1700000000000,
                    RemovePortfolioSnapshotsByUserId ''u1'', Get ''k'']", THEN conjunct1]
      set_entry_get_roundtrip [where rt = stub_runtime and d = 60000 and key = "''k''" and v = "''v''"
        and ttl = Undefined and s = "\<lparr>entries = [], clock = 0\<rparr>"
        and ops = "[Wait 60000]", THEN conjunct2, THEN conjunct1]
      set_entry_get_roundtrip [where rt = stub_runtime and d = 60000
        and key = "''portfolio-snapshot-u1''" and userId = "''u1''" and s' = three_snapshots,
        THEN conjunct2, THEN conjunct2, THEN conjunct2, THEN conjunct2]
    by simp
qed

section \<open>The health check\<close>

lemma try_catch_race_timer: "try_catch (race p (Rejected u e)) \<noteq> None"
  by (cases p) auto



lemma finally_block_Pending: "finally_block t b cl = Pending \<longleftrightarrow> cl = Pending"
  by (cases cl) simp_all

lemma isHealthy_unfold:
  "isHealthy svc now s =
     (case try_catch (race (fst (probe svc ''__health_check__'' (toString now) 2000 s))
                        (Rejected 2000 (Error ''Redis health check failed: timeout''))) of
        None \<Rightarrow> (Pending, [], snd (probe svc ''__health_check__'' (toString now) 2000 s))
      | Some (t, result, logged) \<Rightarrow>
          (finally_block t result
             (fst (remove svc ''__health_check__'' (snd (probe svc ''__health_check__'' (toString now) 2000 s)))),
           logged,
           snd (remove svc ''__health_check__'' (snd (probe svc ''__health_check__'' (toString now) 2000 s)))))"
  by (simp add: isHealthy_def Let_def case_prod_beta split: option.splits)










lemma isHealthy_pending_iff:
  "fst (isHealthy svc now s) = Pending \<longleftrightarrow>
     fst (remove svc ''__health_check__'' (snd (probe svc ''__health_check__'' (toString now) 2000 s))) = Pending"
  using try_catch_race_timer [of "fst (probe svc ''__health_check__'' (toString now) 2000 s)" 2000
          "Error ''Redis health check failed: timeout''"]
  by (auto simp add: isHealthy_unfold finally_block_Pending split: option.splits prod.splits)

lemma try_catch_true_iff:
  "(\<exists>t lg. try_catch (race p (Rejected u e)) = Some (t, True, lg)) \<longleftrightarrow> (\<exists>t. p = Fulfilled t () \<and> t < u)"
  by (cases p) auto

lemma finally_block_Fulfilled_iff:
  "(\<exists>t'. finally_block t b cl = Fulfilled t' b') \<longleftrightarrow> (b' = b \<and> cl \<noteq> Pending)"
  by (cases cl) auto

lemma isHealthy_true_iff:
  "(\<exists>t. fst (isHealthy svc now s) = Fulfilled t True) \<longleftrightarrow>
     (\<exists>t. fst (probe svc ''__health_check__'' (toString now) 2000 s) = Fulfilled t () \<and> t < 2000)
     \<and> fst (remove svc ''__health_check__'' (snd (probe svc ''__health_check__'' (toString now) 2000 s))) \<noteq> Pending"
proof -
  let ?p = "fst (probe svc ''__health_check__'' (toString now) 2000 s)"
  let ?e = "Error ''Redis health check failed: timeout''"
  let ?cl = "fst (remove svc ''__health_check__'' (snd (probe svc ''__health_check__'' (toString now) 2000 s)))"
  obtain t b lg where tc: "try_catch (race ?p (Rejected 2000 ?e)) = Some (t, b, lg)"
    using try_catch_race_timer [of ?p 2000 ?e] by (metis not_None_eq prod_cases3)
  have res: "fst (isHealthy svc now s) = finally_block t b ?cl"
    by (simp add: isHealthy_unfold tc)
  have "(\<exists>t'. fst (isHealthy svc now s) = Fulfilled t' True) \<longleftrightarrow> (b \<and> ?cl \<noteq> Pending)"
    unfolding res finally_block_Fulfilled_iff by auto
  moreover have "b \<longleftrightarrow> (\<exists>t. ?p = Fulfilled t () \<and> t < 2000)"
    using try_catch_true_iff [of ?p 2000 ?e] tc by (cases ?p) (auto split: if_splits)
  ultimately show ?thesis by simp
qed

lemma probe_fulfilled_iff:
  "fst (probe svc k v dl s) = Fulfilled t () \<longleftrightarrow>
     (\<exists>t1 ack s1 t2 s2.
        set_entry svc k v (Val 1000) s = (Fulfilled t1 ack, s1) \<and> t1 < dl
        \<and> get svc k s1 = (Fulfilled t2 (Some v), s2) \<and> t = t1 + t2)"
  by (auto simp add: probe_def split: prod.splits promise.splits if_splits)

text \<open>
  Three failing probes whose cleanup settles: the value read back is absent, the write is
  refused, and the write takes longer than the timer. Each returns \<open>false\<close> and logs
  the reason.
\<close>

lemma isHealthy_failures:
  "isHealthy \<lparr>client = store_client\<lparr>kv_get := (\<lambda>key s. (Fulfilled 0 None, s))\<rparr>,
              configurationService = \<lparr>CACHE_TTL = 60000\<rparr>\<rparr> now \<lparr>entries = [], clock = 0\<rparr>
     = (Fulfilled 0 False, [''Redis health check failed: value mismatch''], \<lparr>entries = [], clock = 0\<rparr>)"
  "isHealthy \<lparr>client = store_client\<lparr>kv_set := (\<lambda>key v ttl s. (Rejected 3 (Error ''ECONNREFUSED''), s))\<rparr>,
              configurationService = \<lparr>CACHE_TTL = 60000\<rparr>\<rparr> now \<lparr>entries = [], clock = 0\<rparr>
     = (Fulfilled 3 False, [''ECONNREFUSED''], \<lparr>entries = [], clock = 0\<rparr>)"
  "isHealthy \<lparr>client = store_client\<lparr>kv_set := (\<lambda>key v ttl s. (Fulfilled 2500 True, s))\<rparr>,
              configurationService = \<lparr>CACHE_TTL = 60000\<rparr>\<rparr> now \<lparr>entries = [], clock = 0\<rparr>
     = (Fulfilled 2000 False, [''Redis health check failed: timeout''], \<lparr>entries = [], clock = 0\<rparr>)"
  by (simp_all add: isHealthy_def probe_def set_entry_def get_def remove_def store_client_def
        lookup_def Let_def)

text \<open>
  Claim C2. \<open>isHealthy\<close> never rejects, and when it returns, it returns \<open>true\<close> exactly
  when the probe fulfilled before the timer (lemmas \<open>isHealthy_never_rejects\<close>,
  \<open>isHealthy_true_iff\<close> and \<open>probe_fulfilled_iff\<close>). It returns only once the removal of
  the sentinel key has settled (lemma \<open>isHealthy_pending_iff\<close>): the timer bounds the probe
  but not the cleanup. On a client whose promises never settle, the timer rejects after
  2000 ms and the timeout is logged, and then the call awaits a removal that never
  settles: it returns no boolean at all.
\<close>

theorem isHealthy_stalled_store:
  "isHealthy \<lparr>client = stalled_client, configurationService = \<lparr>CACHE_TTL = 60000\<rparr>\<rparr> 1700000000000 ()
     = (Pending, [''Redis health check failed: timeout''], ())"
  by (simp add: isHealthy_def probe_def set_entry_def remove_def stalled_client_def Let_def)



section \<open>Key derivation: portfolio snapshot keys\<close>











end
